theory Spec2Isabelle
  imports Main
begin

section \<open>Text and the three special characters\<close>

text \<open>
  The program \<^verbatim>\<open>video/out/metal/generate_shader_header.py\<close> reads a shader source
  file as text, escapes backslash, double quote and newline, and writes the result as a
  C string literal below two comment lines. Text is modelled as \<^typ>\<open>string\<close>: the
  characters Python's text layer hands to \<^verbatim>\<open>f.read()\<close> and takes from
  \<^verbatim>\<open>f.write()\<close>. The bytes of the files, and their decoding and encoding, are added
  in the section on the text layer of \<^verbatim>\<open>open\<close>.
\<close>

abbreviation backslash :: char where
  "backslash \<equiv> CHR 0x5C"

abbreviation dquote :: char where
  "dquote \<equiv> CHR 0x22"

abbreviation newline :: char where
  "newline \<equiv> CHR 0x0A"

subsection \<open>Python's \<^verbatim>\<open>str.replace\<close>\<close>

text \<open>
  \<^verbatim>\<open>s.replace(old, new)\<close> scans \<open>s\<close> from the left and replaces every
  non-overlapping occurrence of \<open>old\<close> by \<open>new\<close>; with an empty \<open>old\<close> it puts
  \<open>new\<close> before every character and at the end.
\<close>

function replace :: "string \<Rightarrow> string \<Rightarrow> string \<Rightarrow> string" where
  "replace [] old new = (if old = [] then new else [])"
| "replace (c # cs) old new =
     (if old = [] then new @ c # replace cs old new
      else if take (length old) (c # cs) = old
           then new @ replace (drop (length old) (c # cs)) old new
           else c # replace cs old new)"
  by pat_completeness auto
termination
  by (relation "measure (\<lambda>(s, old, new). length s)") auto

subsection \<open>The escaping step of \<^verbatim>\<open>generate_header\<close>\<close>

text \<open>
  Lines 14 to 16 of the source:
  \<^verbatim>\<open>
    shader_source = shader_source.replace('\\', '\\\\')
    shader_source = shader_source.replace('"', '\\"')
    shader_source = shader_source.replace('\n', '\\n"\n"')
  \<close>
\<close>

definition escape_special_characters :: "string \<Rightarrow> string" where
  "escape_special_characters shader_source =
     (let shader_source = replace shader_source [backslash] [backslash, backslash];
          shader_source = replace shader_source [dquote] [backslash, dquote];
          shader_source = replace shader_source [newline]
                            [backslash, CHR ''n'', dquote, newline, dquote]
      in shader_source)"

subsection \<open>\<^verbatim>\<open>os.path.basename\<close> (POSIX)\<close>

text \<open>
  The standard library's \<^verbatim>\<open>posixpath.basename\<close> is
  \<^verbatim>\<open>i = p.rfind('/') + 1; return p[i:]\<close>, where \<^verbatim>\<open>rfind\<close> gives the highest
  index of the separator, or \<open>-1\<close> when there is none.
\<close>

fun rfind :: "string \<Rightarrow> char \<Rightarrow> int" where
  "rfind [] sep = - 1"
| "rfind (c # cs) sep =
     (let r = rfind cs sep
      in if 0 \<le> r then r + 1 else if c = sep then 0 else - 1)"

definition basename :: "string \<Rightarrow> string" where
  "basename p = (let i = rfind p (CHR ''/'') + 1 in drop (nat i) p)"

subsection \<open>The header text\<close>

text \<open>
  Lines 19 to 21 of the source:
  \<^verbatim>\<open>
    header_content = f'// Auto-generated from {os.path.basename(input_file)}\n'
    header_content += f'// Do not edit manually\n\n'
    header_content += f'"{shader_source}"\n'
  \<close>
\<close>

definition header_content :: "string \<Rightarrow> string \<Rightarrow> string" where
  "header_content input_file shader_source =
     (let header_content = ''// Auto-generated from '' @ basename input_file @ [newline];
          header_content = header_content @ ''// Do not edit manually'' @ [newline, newline];
          header_content = header_content @ [dquote] @ shader_source @ [dquote] @ [newline]
      in header_content)"

section \<open>Files, standard output and the process\<close>

text \<open>
  The file system maps a path to a node. Opening a file fails with one of Python's
  \<^verbatim>\<open>OSError\<close> subclasses (\<^verbatim>\<open>IOError\<close> is an alias of \<^verbatim>\<open>OSError\<close>). Whether a
  new file can be created at a path depends on its parent directory; the model records
  the error the creation would raise, if any.
\<close>

type_synonym path = string

datatype io_error = FileNotFoundError | PermissionError | IsADirectoryError

record regular_file =
  content :: string
  readable :: bool
  writable :: bool

datatype node = Regular regular_file | Directory

record filesystem =
  nodes :: "path \<rightharpoonup> node"
  create_error :: "path \<Rightarrow> io_error option"

record world =
  fs :: filesystem
  stdout :: string

text \<open>\<^verbatim>\<open>with open(p, 'r') as f: s = f.read()\<close>\<close>

definition read_text :: "filesystem \<Rightarrow> path \<Rightarrow> io_error + string" where
  "read_text files p =
     (case nodes files p of
        None \<Rightarrow> Inl FileNotFoundError
      | Some Directory \<Rightarrow> Inl IsADirectoryError
      | Some (Regular f) \<Rightarrow> if readable f then Inr (content f) else Inl PermissionError)"

text \<open>
  \<^verbatim>\<open>with open(p, 'w') as f: f.write(s)\<close>: mode \<^verbatim>\<open>'w'\<close> creates the file or
  truncates it, and the text written becomes its whole content.
\<close>

definition write_text :: "filesystem \<Rightarrow> path \<Rightarrow> string \<Rightarrow> io_error + filesystem" where
  "write_text files p s =
     (case nodes files p of
        None \<Rightarrow>
          (case create_error files p of
             Some e \<Rightarrow> Inl e
           | None \<Rightarrow>
               Inr (files\<lparr>nodes := (nodes files)
                      (p \<mapsto> Regular \<lparr>content = s, readable = True, writable = True\<rparr>)\<rparr>))
      | Some Directory \<Rightarrow> Inl IsADirectoryError
      | Some (Regular f) \<Rightarrow>
          if writable f
          then Inr (files\<lparr>nodes := (nodes files)(p \<mapsto> Regular (f\<lparr>content := s\<rparr>))\<rparr>)
          else Inl PermissionError)"

text \<open>\<^verbatim>\<open>print(s)\<close> writes the text and a newline to standard output.\<close>

definition print_line :: "string \<Rightarrow> world \<Rightarrow> world" where
  "print_line s w = w\<lparr>stdout := stdout w @ s @ [newline]\<rparr>"

subsection \<open>\<^verbatim>\<open>generate_header\<close>\<close>

text \<open>
  The function returns the exception it raised, if any, and the world it leaves. The
  input is read and closed before the output is opened.
\<close>

definition generate_header :: "path \<Rightarrow> path \<Rightarrow> world \<Rightarrow> (io_error + unit) \<times> world" where
  "generate_header input_file output_file w =
     (case read_text (fs w) input_file of
        Inl e \<Rightarrow> (Inl e, w)
      | Inr shader_source \<Rightarrow>
          (let shader_source = escape_special_characters shader_source;
               header = header_content input_file shader_source
           in case write_text (fs w) output_file header of
                Inl e \<Rightarrow> (Inl e, w)
              | Inr files \<Rightarrow>
                  (Inr (),
                   print_line (''Generated '' @ output_file @ '' from '' @ input_file)
                     (w\<lparr>fs := files\<rparr>))))"

subsection \<open>The script's entry point\<close>

datatype outcome = Finished | SysExit int | Uncaught io_error

text \<open>The interpreter's exit status: an uncaught exception ends the process with 1.\<close>

fun exit_status :: "outcome \<Rightarrow> int" where
  "exit_status Finished = 0"
| "exit_status (SysExit n) = n"
| "exit_status (Uncaught e) = 1"

definition usage :: string where
  "usage = ''Usage: generate_shader_header.py <input.metal> <output.h>''"

definition main :: "string list \<Rightarrow> world \<Rightarrow> outcome \<times> world" where
  "main argv w =
     (if length argv \<noteq> 3 then (SysExit 1, print_line usage w)
      else (case generate_header (argv ! 1) (argv ! 2) w of
              (Inl e, w') \<Rightarrow> (Uncaught e, w')
            | (Inr u, w') \<Rightarrow> (Finished, w')))"

section \<open>Bytes and the text layer of \<^verbatim>\<open>open\<close>\<close>

text \<open>
  Both calls of \<^verbatim>\<open>open\<close> are made without \<^verbatim>\<open>encoding=\<close>. The bytes of the input
  are therefore decoded, and the text of the header encoded, by the text layer the
  process happens to run with: the preferred encoding of the locale, and the newline
  translation of text mode. That layer comes from the environment and is a parameter of
  the run. Decoding fails with \<^verbatim>\<open>UnicodeDecodeError\<close> and encoding with
  \<^verbatim>\<open>UnicodeEncodeError\<close>; neither is an \<^verbatim>\<open>OSError\<close>.
\<close>

record text_layer =
  decode :: "string \<Rightarrow> string option"
  encode :: "string \<Rightarrow> string option"

datatype py_error = OSError io_error | UnicodeDecodeError | UnicodeEncodeError

text \<open>
  \<open>generate_header_bytes\<close> is \<^verbatim>\<open>generate_header\<close> on files that hold bytes:
  \<open>content\<close> is read as the bytes on disk. Mode \<^verbatim>\<open>'w'\<close> truncates the output when
  it is opened, before the header is encoded, so an encoding error leaves an empty file.
  \<open>generate_header\<close> above is the same run seen above the text layer; under a layer
  that changes nothing the two agree (\<open>generate_header_bytes_plain\<close> below).
\<close>

definition generate_header_bytes ::
  "text_layer \<Rightarrow> path \<Rightarrow> path \<Rightarrow> world \<Rightarrow> (py_error + unit) \<times> world" where
  "generate_header_bytes layer input_file output_file w =
     (case read_text (fs w) input_file of
        Inl e \<Rightarrow> (Inl (OSError e), w)
      | Inr bytes \<Rightarrow>
          (case decode layer bytes of
             None \<Rightarrow> (Inl UnicodeDecodeError, w)
           | Some shader_source \<Rightarrow>
               (let shader_source = escape_special_characters shader_source;
                    header = header_content input_file shader_source
                in case write_text (fs w) output_file [] of
                     Inl e \<Rightarrow> (Inl (OSError e), w)
                   | Inr truncated \<Rightarrow>
                       (case encode layer header of
                          None \<Rightarrow> (Inl UnicodeEncodeError, w\<lparr>fs := truncated\<rparr>)
                        | Some bytes' \<Rightarrow>
                            (case write_text truncated output_file bytes' of
                               Inl e \<Rightarrow> (Inl (OSError e), w\<lparr>fs := truncated\<rparr>)
                             | Inr files \<Rightarrow>
                                 (Inr (),
                                  print_line
                                    (''Generated '' @ output_file @ '' from '' @ input_file)
                                    (w\<lparr>fs := files\<rparr>)))))))"






section \<open>Notions the properties are stated with\<close>

subsection \<open>The image of one character\<close>

text \<open>
  What the three replacements together make of a single character. That the escaping
  step is the concatenation of these images is proved below (\<open>escape_concat_map\<close>);
  the definition of \<open>escape_special_characters\<close> does not use it.
\<close>

definition escaped_char :: "char \<Rightarrow> string" where
  "escaped_char c =
     (if c = backslash then [backslash, backslash]
      else if c = dquote then [backslash, dquote]
      else if c = newline then [backslash, CHR ''n'', dquote, newline, dquote]
      else [c])"

definition special :: "char \<Rightarrow> bool" where
  "special c = (c = backslash \<or> c = dquote \<or> c = newline)"

subsection \<open>Line splices and their number\<close>

text \<open>
  A line splice is the five characters backslash, \<open>n\<close>, closing quote, a real newline,
  opening quote. \<open>count_occurrences pat s\<close> is the number of positions of \<open>s\<close> at
  which \<open>pat\<close> starts.
\<close>

definition line_splice :: string where
  "line_splice = [backslash, CHR ''n'', dquote, newline, dquote]"

fun count_occurrences :: "string \<Rightarrow> string \<Rightarrow> nat" where
  "count_occurrences pat [] = (if pat = [] then 1 else 0)"
| "count_occurrences pat (c # cs) =
     (if take (length pat) (c # cs) = pat then 1 else 0) + count_occurrences pat cs"

subsection \<open>Reading the generated literals back\<close>

text \<open>
  The payload of the header is a sequence of adjacent C string literals. The reader
  below takes it apart the way a C lexer does: between literals only newlines and
  blanks may stand; inside a literal a backslash takes the next character with it, an
  unescaped quote closes the literal and a raw newline is an error. It returns the
  text between the quotes of each literal, escapes still in place, in order.
\<close>

fun push :: "string \<Rightarrow> string list \<Rightarrow> string list" where
  "push pre [] = [pre]"
| "push pre (seg # segs) = (pre @ seg) # segs"

fun in_literal :: "string \<Rightarrow> string list option"
  and between_literals :: "string \<Rightarrow> string list option" where
  "in_literal [] = None"
| "in_literal (c # cs) =
     (if c = dquote then map_option (Cons []) (between_literals cs)
      else if c = newline then None
      else if c = backslash then
        (case cs of
           [] \<Rightarrow> None
         | d # ds \<Rightarrow> map_option (push [c, d]) (in_literal ds))
      else map_option (push [c]) (in_literal cs))"
| "between_literals [] = Some []"
| "between_literals (c # cs) =
     (if c = dquote then in_literal cs
      else if c = newline \<or> c = CHR '' '' then between_literals cs
      else None)"

definition literal_segments :: "string \<Rightarrow> string list option" where
  "literal_segments payload = between_literals payload"

text \<open>
  Undoing the escapes, from the left: two backslashes give one backslash, backslash
  and quote give a quote, backslash and \<open>n\<close> give a newline.
\<close>

fun unescape :: "string \<Rightarrow> string" where
  "unescape (c # d # cs) =
     (if c = backslash \<and> d = backslash then backslash # unescape cs
      else if c = backslash \<and> d = dquote then dquote # unescape cs
      else if c = backslash \<and> d = CHR ''n'' then newline # unescape cs
      else c # unescape (d # cs))"
| "unescape cs = cs"

subsection \<open>Observing the file system\<close>

definition file_text :: "filesystem \<Rightarrow> path \<Rightarrow> string option" where
  "file_text files p =
     (case nodes files p of
        Some (Regular f) \<Rightarrow> Some (content f)
      | Some Directory \<Rightarrow> None
      | None \<Rightarrow> None)"

definition readable_file :: "filesystem \<Rightarrow> path \<Rightarrow> bool" where
  "readable_file files p =
     (case nodes files p of
        Some (Regular f) \<Rightarrow> readable f
      | Some Directory \<Rightarrow> False
      | None \<Rightarrow> False)"

definition openable_for_writing :: "filesystem \<Rightarrow> path \<Rightarrow> bool" where
  "openable_for_writing files p =
     (case nodes files p of
        Some (Regular f) \<Rightarrow> writable f
      | Some Directory \<Rightarrow> False
      | None \<Rightarrow> create_error files p = None)"

text \<open>The two comment lines and the blank line that open every header.\<close>

definition comment_block :: "path \<Rightarrow> string" where
  "comment_block input_file =
     ''// Auto-generated from '' @ basename input_file @ [newline] @
     ''// Do not edit manually'' @ [newline] @
     [newline]"

subsection \<open>An example world\<close>

text \<open>
  A small file system for the concrete instances below: a shader source that can be
  read, a copy of it in another directory, a source that may not be read, a stale
  header that may be overwritten, and a directory. New files can be created under
  \<^verbatim>\<open>build/\<close> only.
\<close>

definition shader_world :: "string \<Rightarrow> world" where
  "shader_world s =
     \<lparr>fs = \<lparr>nodes = [''shaders/blit.metal'' \<mapsto> Regular \<lparr>content = s, readable = True, writable = False\<rparr>,
                         ''build/blit.h'' \<mapsto> Regular \<lparr>content = ''stale'', readable = True, writable = True\<rparr>,
                         ''secret.metal'' \<mapsto> Regular \<lparr>content = s, readable = False, writable = False\<rparr>,
                         ''copy/blit.metal'' \<mapsto> Regular \<lparr>content = s, readable = True, writable = False\<rparr>,
                         ''build'' \<mapsto> Directory],
             create_error = (\<lambda>p. if take 6 p = ''build/'' then None else Some FileNotFoundError)\<rparr>,
      stdout = []\<rparr>"

section \<open>Auxiliary facts\<close>

lemma replace_single:
  "replace s [a] new = concat (map (\<lambda>c. if c = a then new else [c]) s)"
  by (induction s) simp_all

lemma concat_map_concat_map:
  "concat (map g (concat (map f s))) = concat (map (\<lambda>c. concat (map g (f c))) s)"
  by (induction s) simp_all

lemma escape_concat_map:
  "escape_special_characters s = concat (map escaped_char s)"
  unfolding escape_special_characters_def Let_def replace_single concat_map_concat_map
  by (rule arg_cong [where f = concat], rule map_cong) (auto simp: escaped_char_def)

lemma escape_Nil: "escape_special_characters [] = []"
  by (simp add: escape_concat_map)

lemma escape_Cons:
  "escape_special_characters (c # s) = escaped_char c @ escape_special_characters s"
  by (simp add: escape_concat_map)

lemma escape_append:
  "escape_special_characters (s @ t) = escape_special_characters s @ escape_special_characters t"
  by (simp add: escape_concat_map)

lemma escape_no_special:
  "\<forall>c \<in> set s. \<not> special c \<Longrightarrow> escape_special_characters s = s"
  by (induction s) (simp_all add: escape_Nil escape_Cons escaped_char_def special_def)

text \<open>No escaped text starts with a bare quote, nor with n and a quote.\<close>

lemma escape_not_quote_first:
  "escape_special_characters s \<noteq> dquote # t"
  by (cases s) (auto simp: escape_Nil escape_Cons escaped_char_def)

lemma escape_not_n_quote_first:
  "escape_special_characters s \<noteq> CHR ''n'' # dquote # t"
proof (cases s)
  case Nil
  then show ?thesis by (simp add: escape_Nil)
next
  case (Cons c s')
  then show ?thesis
    using escape_not_quote_first [of s' t]
    by (auto simp: escape_Cons escaped_char_def)
qed

lemma count_splice_escaped_char:
  "count_occurrences line_splice (escaped_char c @ escape_special_characters s) =
     (if c = newline then 1 else 0) + count_occurrences line_splice (escape_special_characters s)"
proof -
  let ?r = "escape_special_characters s"
  have n: "take 4 ?r \<noteq> [CHR ''n'', dquote, newline, dquote]"
  proof
    assume a: "take 4 ?r = [CHR ''n'', dquote, newline, dquote]"
    have "?r = take 4 ?r @ drop 4 ?r" by simp
    then have "?r = CHR ''n'' # dquote # (newline # dquote # drop 4 ?r)"
      unfolding a by simp
    then show False using escape_not_n_quote_first by blast
  qed
  then have "take (Suc (Suc (Suc (Suc 0)))) ?r \<noteq> [CHR ''n'', dquote, newline, dquote]"
    by (simp add: eval_nat_numeral)
  then show ?thesis
    by (auto simp: escaped_char_def line_splice_def)
qed

lemma count_splice_escape:
  "count_occurrences line_splice (escape_special_characters s) = count_list s newline"
proof (induction s)
  case Nil
  show ?case by (simp add: escape_Nil line_splice_def)
next
  case (Cons c s)
  then show ?case by (simp add: escape_Cons count_splice_escaped_char)
qed

lemma concat_push: "concat (push pre segs) = pre @ concat segs"
  by (cases segs) simp_all

lemma length_push: "segs \<noteq> [] \<Longrightarrow> length (push pre segs) = length segs"
  by (cases segs) simp_all

lemma in_literal_escaped_char:
  "in_literal (escaped_char c @ rest) =
     (if c = newline then map_option (Cons [backslash, CHR ''n'']) (in_literal rest)
      else map_option (push (escaped_char c)) (in_literal rest))"
  by (cases "in_literal rest") (auto simp: escaped_char_def)

lemma unescape_escaped_char:
  "c \<noteq> newline \<Longrightarrow> unescape (escaped_char c @ rest) = c # unescape rest"
  by (cases rest) (auto simp: escaped_char_def)

lemma in_literal_escape:
  "\<exists>segs. in_literal (escape_special_characters s @ [dquote]) = Some segs
      \<and> length segs = count_list s newline + 1
      \<and> unescape (concat segs) = s"
proof (induction s)
  case Nil
  show ?case by (simp add: escape_Nil)
next
  case (Cons c s)
  then obtain segs where
    segs: "in_literal (escape_special_characters s @ [dquote]) = Some segs"
      "length segs = count_list s newline + 1" "unescape (concat segs) = s"
    by blast
  from segs(2) have ne: "segs \<noteq> []" by auto
  show ?case
  proof (cases "c = newline")
    case True
    then show ?thesis
      using segs by (simp add: escape_Cons in_literal_escaped_char)
  next
    case False
    have "unescape (escaped_char c @ concat segs) = c # s"
      using False segs(3) by (simp add: unescape_escaped_char)
    then show ?thesis
      using False segs ne
      by (simp add: escape_Cons in_literal_escaped_char concat_push length_push)
  qed
qed

lemma write_text_openable:
  "openable_for_writing files p \<Longrightarrow> \<exists>files'. write_text files p s = Inr files'"
  by (cases "nodes files p")
     (auto simp: openable_for_writing_def write_text_def split: node.splits)

lemma write_text_result:
  assumes "write_text files p s = Inr files'"
  shows "file_text files' p = Some s"
    and "create_error files' = create_error files"
    and "\<forall>q. q \<noteq> p \<longrightarrow> nodes files' q = nodes files q"
  using assms
  by (auto simp: write_text_def file_text_def split: option.splits node.splits if_splits)

lemma write_text_not_openable:
  assumes "\<not> openable_for_writing files p"
  shows "\<exists>e. write_text files p s = Inl e"
  using assms
  by (auto simp: openable_for_writing_def write_text_def split: option.splits node.splits)

lemma read_text_readable:
  "readable_file files p \<longleftrightarrow> (\<exists>s. read_text files p = Inr s)"
  by (auto simp: readable_file_def read_text_def split: option.splits node.splits)

lemma generate_header_success:
  assumes "read_text (fs w) input_file = Inr s"
    and "openable_for_writing (fs w) output_file"
  shows "\<exists>files.
           generate_header input_file output_file w =
             (Inr (), w\<lparr>fs := files,
                stdout := stdout w @ ''Generated '' @ output_file @ '' from '' @ input_file
                            @ [newline]\<rparr>)
           \<and> file_text files output_file =
               Some (header_content input_file (escape_special_characters s))
           \<and> (\<forall>q. q \<noteq> output_file \<longrightarrow> nodes files q = nodes (fs w) q)"
proof -
  let ?h = "header_content input_file (escape_special_characters s)"
  obtain files where f: "write_text (fs w) output_file ?h = Inr files"
    using write_text_openable [OF assms(2)] by blast
  note r = write_text_result [OF f]
  show ?thesis
    using assms(1) f r(1,3)
    by (intro exI [of _ files]) (simp add: generate_header_def print_line_def)
qed

lemma header_content_eq:
  "header_content input_file body = comment_block input_file @ [dquote] @ body @ [dquote, newline]"
  by (simp add: header_content_def comment_block_def)

lemma rfind_bounds: "- 1 \<le> rfind p sep \<and> rfind p sep < int (length p)"
  by (induction p) (auto simp: Let_def)

lemma rfind_rest: "sep \<notin> set (drop (nat (rfind p sep + 1)) p)"
proof (induction p)
  case Nil
  show ?case by simp
next
  case (Cons c cs)
  show ?case
  proof (cases "0 \<le> rfind cs sep")
    case True
    then have "nat (rfind cs sep + 1 + 1) = Suc (nat (rfind cs sep + 1))" by simp
    with True Cons show ?thesis by (simp add: Let_def)
  next
    case False
    with rfind_bounds [of cs sep] have "rfind cs sep = - 1" by simp
    with Cons have "sep \<notin> set cs" by simp
    with False show ?thesis by (simp add: Let_def)
  qed
qed

lemma rfind_at: "0 \<le> rfind p sep \<Longrightarrow> p ! nat (rfind p sep) = sep"
proof (induction p)
  case Nil
  then show ?case by simp
next
  case (Cons c cs)
  show ?case
  proof (cases "0 \<le> rfind cs sep")
    case True
    then have "nat (rfind cs sep + 1) = Suc (nat (rfind cs sep))" by simp
    with True Cons show ?thesis by (simp add: Let_def)
  next
    case False
    with Cons.prems show ?thesis by (simp add: Let_def split: if_splits)
  qed
qed

lemma basename_no_slash: "CHR ''/'' \<notin> set (basename p)"
  by (simp add: basename_def Let_def rfind_rest)

lemma basename_suffix:
  "\<exists>dir. p = dir @ basename p \<and> (dir = [] \<or> last dir = CHR ''/'')"
proof -
  let ?r = "rfind p (CHR ''/'')"
  let ?k = "nat (?r + 1)"
  have p: "p = take ?k p @ basename p"
    by (simp add: basename_def Let_def)
  have "take ?k p = [] \<or> last (take ?k p) = CHR ''/''"
  proof (cases "0 \<le> ?r")
    case True
    with rfind_bounds [of p "CHR ''/''"] have k: "?k = Suc (nat ?r)" "nat ?r < length p"
      by simp_all
    then have "take ?k p = take (nat ?r) p @ [p ! nat ?r]"
      by (simp add: take_Suc_conv_app_nth)
    with rfind_at [OF True] show ?thesis by simp
  next
    case False
    then show ?thesis by simp
  qed
  with p show ?thesis by blast
qed

lemma escape_plain: "\<not> list_ex special s \<Longrightarrow> escape_special_characters s = s"
  by (rule escape_no_special) (simp add: list_ex_iff)

lemma length_escape: "length s \<le> length (escape_special_characters s)"
  by (induction s) (auto simp: escape_Nil escape_Cons escaped_char_def)

lemma length_escape_special:
  "list_ex special s \<Longrightarrow> length s < length (escape_special_characters s)"
proof (induction s)
  case Nil
  then show ?case by simp
next
  case (Cons c s)
  show ?case
  proof (cases "special c")
    case True
    then have "1 < length (escaped_char c)"
      by (auto simp: special_def escaped_char_def)
    with length_escape [of s] show ?thesis by (simp add: escape_Cons)
  next
    case False
    with Cons have "length s < length (escape_special_characters s)" by simp
    moreover have "length (escaped_char c) = 1"
      using False by (simp add: special_def escaped_char_def)
    ultimately show ?thesis by (simp add: escape_Cons)
  qed
qed

lemma special_escape:
  "list_ex special s \<Longrightarrow> list_ex special (escape_special_characters s)"
  by (induction s) (auto simp: escape_Cons escaped_char_def special_def)

lemma generate_header_text:
  assumes "read_text (fs w) input_file = Inr s"
    and "openable_for_writing (fs w) output_file"
  shows "fst (generate_header input_file output_file w) = Inr ()"
    and "file_text (fs (snd (generate_header input_file output_file w))) output_file =
           Some (comment_block input_file @ [dquote] @ escape_special_characters s
                   @ [dquote, newline])"
    and "stdout (snd (generate_header input_file output_file w)) =
           stdout w @ ''Generated '' @ output_file @ '' from '' @ input_file @ [newline]"
  using generate_header_success [OF assms]
  by (auto simp: header_content_eq)

lemma read_shader_world:
  "read_text (fs (shader_world s)) ''shaders/blit.metal'' = Inr s"
  "read_text (fs (shader_world s)) ''copy/blit.metal'' = Inr s"
  "read_text (fs (shader_world s)) ''secret.metal'' = Inl PermissionError"
  "read_text (fs (shader_world s)) ''missing.metal'' = Inl FileNotFoundError"
  "read_text (fs (shader_world s)) ''build'' = Inl IsADirectoryError"
  by (simp_all add: shader_world_def read_text_def)

lemma openable_shader_world:
  "openable_for_writing (fs (shader_world s)) ''build/blit.h''"
  "openable_for_writing (fs (shader_world s)) ''build/new.h''"
  "\<not> openable_for_writing (fs (shader_world s)) ''nowhere/blit.h''"
  by (simp_all add: shader_world_def openable_for_writing_def)

lemma generate_header_read_fails:
  "read_text (fs w) input_file = Inl e \<Longrightarrow>
     generate_header input_file output_file w = (Inl e, w)"
  by (simp add: generate_header_def)

lemma read_text_failure:
  assumes "\<not> readable_file files p"
  shows "read_text files p =
           Inl (case nodes files p of
                  None \<Rightarrow> FileNotFoundError
                | Some Directory \<Rightarrow> IsADirectoryError
                | Some (Regular f) \<Rightarrow> PermissionError)"
  using assms
  by (auto simp: readable_file_def read_text_def split: option.splits node.splits)

lemma write_text_after_truncate:
  assumes "write_text files p [] = Inr truncated"
  shows "write_text truncated p bytes = write_text files p bytes"
  using assms
  by (auto simp: write_text_def split: option.splits node.splits if_splits)




lemma generate_header_bytes_plain:
  assumes "decode layer = Some" and "encode layer = Some"
  shows "generate_header_bytes layer input_file output_file w =
           (map_sum OSError id (fst (generate_header input_file output_file w)),
            snd (generate_header input_file output_file w))"
proof (cases "read_text (fs w) input_file")
  case (Inl e)
  then show ?thesis
    by (simp add: generate_header_bytes_def generate_header_def)
next
  case (Inr bytes)
  let ?h = "header_content input_file (escape_special_characters bytes)"
  show ?thesis
  proof (cases "write_text (fs w) output_file []")
    case (Inl e)
    then have "write_text (fs w) output_file ?h = Inl e"
      by (auto simp: write_text_def split: option.splits node.splits if_splits)
    with Inl Inr assms show ?thesis
      by (simp add: generate_header_bytes_def generate_header_def)
  next
    case (Inr truncated)
    then have o: "openable_for_writing (fs w) output_file"
      by (auto simp: write_text_def openable_for_writing_def
          split: option.splits node.splits if_splits)
    obtain files where f: "write_text (fs w) output_file ?h = Inr files"
      using write_text_openable [OF o] by blast
    have "write_text truncated output_file ?h = Inr files"
      using write_text_after_truncate [OF Inr] f by simp
    with Inr f \<open>read_text (fs w) input_file = Inr bytes\<close> assms show ?thesis
      by (simp add: generate_header_bytes_def generate_header_def)
  qed
qed






section \<open>The escaping step\<close>

text \<open>
  An instance of the escaping step and of the reader, evaluated: the input
  \<^verbatim>\<open>a\<close>, newline, backslash, quote, newline, \<^verbatim>\<open>b\<close> gives three literals.
\<close>

lemma round_trip_example:
  "escape_special_characters (''a'' @ [newline, backslash, dquote, newline] @ ''b'')
     = ''a'' @ [backslash, CHR ''n'', dquote, newline, dquote,
               backslash, backslash, backslash, dquote,
               backslash, CHR ''n'', dquote, newline, dquote] @ ''b''
   \<and> literal_segments
        ([dquote]
          @ escape_special_characters (''a'' @ [newline, backslash, dquote, newline] @ ''b'')
          @ [dquote])
     = Some [''a'' @ [backslash, CHR ''n''],
             [backslash, backslash, backslash, dquote, backslash, CHR ''n''],
             ''b'']"
  by (simp add: escape_special_characters_def literal_segments_def)

text \<open>
  Claim C1. For every input \<open>s\<close> with exactly \<open>n\<close> newline characters, the header
  that \<open>generate_header\<close> writes holds, between the opening quote after the comment
  block and the closing quote before the final newline, a literal body (the escaped
  \<open>s\<close>) with exactly \<open>n\<close> line splices (backslash, \<open>n\<close>, closing quote, a real
  newline, opening quote). Reading the literals of that payload back, concatenating
  their \<open>n + 1\<close> segments in order and undoing the escapes gives \<open>s\<close> again.
\<close>

theorem generate_header_splices_and_round_trip:
  assumes "read_text (fs w) input_file = Inr s"
    and "openable_for_writing (fs w) output_file"
    and "count_list s newline = n"
  shows "\<exists>body.
           file_text (fs (snd (generate_header input_file output_file w))) output_file =
             Some (comment_block input_file @ [dquote] @ body @ [dquote] @ [newline])
         \<and> body = escape_special_characters s
         \<and> count_occurrences line_splice body = n
         \<and> (\<exists>segs. literal_segments ([dquote] @ body @ [dquote]) = Some segs
               \<and> length segs = n + 1
               \<and> unescape (concat segs) = s)"
proof (intro exI [of _ "escape_special_characters s"] conjI)
  show "file_text (fs (snd (generate_header input_file output_file w))) output_file =
          Some (comment_block input_file @ [dquote] @ escape_special_characters s @ [dquote]
                  @ [newline])"
    using generate_header_text(2) [OF assms(1,2)] by simp
  show "escape_special_characters s = escape_special_characters s" ..
  show "count_occurrences line_splice (escape_special_characters s) = n"
    using assms(3) by (simp add: count_splice_escape)
  show "\<exists>segs. literal_segments ([dquote] @ escape_special_characters s @ [dquote]) = Some segs
               \<and> length segs = n + 1
               \<and> unescape (concat segs) = s"
    using in_literal_escape [of s] assms(3) by (simp add: literal_segments_def)
qed

theorem generate_header_splices_and_round_trip_witness:
  "count_list (''a'' @ [newline, backslash, dquote, newline] @ ''b'') newline = 2
   \<and> (\<exists>body.
         file_text
           (fs (snd (generate_header ''shaders/blit.metal'' ''build/blit.h''
                       (shader_world (''a'' @ [newline, backslash, dquote, newline] @ ''b'')))))
           ''build/blit.h'' =
         Some (comment_block ''shaders/blit.metal'' @ [dquote] @ body @ [dquote] @ [newline])
       \<and> body = ''a'' @ [backslash, CHR ''n'', dquote, newline, dquote,
                          backslash, backslash, backslash, dquote,
                          backslash, CHR ''n'', dquote, newline, dquote] @ ''b''
       \<and> count_occurrences line_splice body = 2
       \<and> (\<exists>segs. literal_segments ([dquote] @ body @ [dquote]) = Some segs
             \<and> length segs = 2 + 1
             \<and> unescape (concat segs) = ''a'' @ [newline, backslash, dquote, newline] @ ''b''))"
proof -
  let ?s = "''a'' @ [newline, backslash, dquote, newline] @ ''b''"
  have n: "count_list ?s newline = 2"
    by simp
  have e: "escape_special_characters ?s =
             ''a'' @ [backslash, CHR ''n'', dquote, newline, dquote,
                      backslash, backslash, backslash, dquote,
                      backslash, CHR ''n'', dquote, newline, dquote] @ ''b''"
    by (simp add: escape_special_characters_def)
  show ?thesis
    using generate_header_splices_and_round_trip
      [OF read_shader_world(1) [of ?s] openable_shader_world(1) [of ?s] n] n
    unfolding e by simp
qed

text \<open>
  A second pass of the escaping step is not the identity on escaped text: one backslash
  becomes two, and the second pass makes four of them.
\<close>

theorem escape_twice_counterexample:
  "escape_special_characters [backslash] = [backslash, backslash]
   \<and> escape_special_characters (escape_special_characters [backslash])
       = [backslash, backslash, backslash, backslash]
   \<and> escape_special_characters (escape_special_characters [backslash])
       \<noteq> escape_special_characters [backslash]"
  by (simp add: escape_special_characters_def)

text \<open>
  Claim C3, amended. Escaping escaped text gives the same text again exactly when the
  original string has no backslash, no double quote and no newline; for every other
  string the second pass escapes the backslashes the first pass put in.
\<close>

theorem escape_idempotent_iff_plain:
  "escape_special_characters (escape_special_characters s) = escape_special_characters s
     \<longleftrightarrow> \<not> list_ex special s"
proof
  assume eq: "escape_special_characters (escape_special_characters s) = escape_special_characters s"
  show "\<not> list_ex special s"
  proof
    assume "list_ex special s"
    then have "list_ex special (escape_special_characters s)" by (rule special_escape)
    then have "length (escape_special_characters s)
                 < length (escape_special_characters (escape_special_characters s))"
      by (rule length_escape_special)
    with eq show False by simp
  qed
next
  assume "\<not> list_ex special s"
  then show "escape_special_characters (escape_special_characters s) = escape_special_characters s"
    by (simp add: escape_plain)
qed

theorem escape_idempotent_iff_plain_witness:
  "\<not> list_ex special ''float4 main()''
   \<and> escape_special_characters (escape_special_characters ''float4 main()'')
       = escape_special_characters ''float4 main()''"
  using escape_idempotent_iff_plain [of "''float4 main()''"]
  by (simp add: special_def)

section \<open>The header file\<close>

text \<open>
  Claim C2. When the input can be read and the output can be opened for writing,
  \<open>generate_header\<close> succeeds and leaves in \<open>output_file\<close> exactly: a comment line
  naming the base name of \<open>input_file\<close>, the fixed comment line, a blank line, the
  escaped content between two double quotes, and a newline. The text does not depend on
  what \<open>output_file\<close> held before. The base name is what follows the last slash of
  the path.
\<close>

theorem generate_header_writes_header:
  assumes "read_text (fs w) input_file = Inr s"
    and "openable_for_writing (fs w) output_file"
  shows "fst (generate_header input_file output_file w) = Inr ()
       \<and> file_text (fs (snd (generate_header input_file output_file w))) output_file =
           Some (''// Auto-generated from '' @ basename input_file @ [newline] @
                 ''// Do not edit manually'' @ [newline] @
                 [newline] @
                 [dquote] @ escape_special_characters s @ [dquote] @
                 [newline])
       \<and> CHR ''/'' \<notin> set (basename input_file)
       \<and> (\<exists>dir. input_file = dir @ basename input_file \<and> (dir = [] \<or> last dir = CHR ''/''))"
  using generate_header_text(1,2) [OF assms] basename_no_slash [of input_file]
    basename_suffix [of input_file]
  by (simp add: comment_block_def)

theorem generate_header_writes_header_witness:
  "file_text (fs (shader_world ''x'')) ''build/blit.h'' = Some ''stale''
   \<and> fst (generate_header ''shaders/blit.metal'' ''build/blit.h'' (shader_world ''x'')) = Inr ()
   \<and> file_text
        (fs (snd (generate_header ''shaders/blit.metal'' ''build/blit.h'' (shader_world ''x''))))
        ''build/blit.h'' =
       Some (''// Auto-generated from blit.metal'' @ [newline] @
             ''// Do not edit manually'' @ [newline] @
             [newline] @
             [dquote] @ ''x'' @ [dquote] @
             [newline])"
proof -
  have b: "basename ''shaders/blit.metal'' = ''blit.metal''"
    by (simp add: basename_def)
  have e: "escape_special_characters ''x'' = ''x''"
    by (simp add: escape_special_characters_def)
  have old: "file_text (fs (shader_world ''x'')) ''build/blit.h'' = Some ''stale''"
    by (simp add: shader_world_def file_text_def)
  show ?thesis
    using generate_header_writes_header
      [OF read_shader_world(1) [of "''x''"] openable_shader_world(1) [of "''x''"]] old
    by (simp add: b e)
qed

text \<open>
  Claim C4. For an input file holding \<^verbatim>\<open>say "hi"\<close> followed by one backslash, the
  escaped literal body is \<^verbatim>\<open>say \"hi\"\<close> followed by two backslashes, and that is
  what stands between the quotes of the header written.
\<close>

theorem say_hi_escaped:
  assumes "read_text (fs w) input_file = Inr (''say '' @ [dquote] @ ''hi'' @ [dquote, backslash])"
    and "openable_for_writing (fs w) output_file"
  shows "escape_special_characters (''say '' @ [dquote] @ ''hi'' @ [dquote, backslash]) =
           ''say '' @ [backslash, dquote] @ ''hi'' @ [backslash, dquote] @ [backslash, backslash]
       \<and> file_text (fs (snd (generate_header input_file output_file w))) output_file =
           Some (comment_block input_file @
                 [dquote] @
                 ''say '' @ [backslash, dquote] @ ''hi'' @ [backslash, dquote]
                   @ [backslash, backslash] @
                 [dquote] @ [newline])"
proof -
  have e: "escape_special_characters (''say '' @ [dquote] @ ''hi'' @ [dquote, backslash]) =
             ''say '' @ [backslash, dquote] @ ''hi'' @ [backslash, dquote] @ [backslash, backslash]"
    by (simp add: escape_special_characters_def)
  show ?thesis
    using generate_header_text(2) [OF assms] e by simp
qed

theorem say_hi_escaped_witness:
  "file_text
     (fs (snd (generate_header ''shaders/blit.metal'' ''build/blit.h''
                 (shader_world (''say '' @ [dquote] @ ''hi'' @ [dquote, backslash])))))
     ''build/blit.h'' =
   Some (comment_block ''shaders/blit.metal'' @
         [dquote] @
         ''say '' @ [backslash, dquote] @ ''hi'' @ [backslash, dquote] @ [backslash, backslash] @
         [dquote] @ [newline])"
  using say_hi_escaped
    [OF read_shader_world(1) [of "''say '' @ [dquote] @ ''hi'' @ [dquote, backslash]"]
        openable_shader_world(1) [of "''say '' @ [dquote] @ ''hi'' @ [dquote, backslash]"]]
  by simp

text \<open>
  Claim C5. For an input \<open>s\<close> with no backslash, no double quote and no newline, the
  literal payload of the header (after the two comment lines and the blank line, before
  the final newline) is a double quote, \<open>s\<close> unchanged, and a double quote.
\<close>

theorem plain_text_payload:
  assumes "read_text (fs w) input_file = Inr s"
    and "openable_for_writing (fs w) output_file"
    and "\<not> list_ex special s"
  shows "file_text (fs (snd (generate_header input_file output_file w))) output_file =
           Some (comment_block input_file @ ([dquote] @ s @ [dquote]) @ [newline])"
  using generate_header_text(2) [OF assms(1,2)] escape_plain [OF assms(3)]
  by simp

theorem plain_text_payload_witness:
  "\<not> list_ex special ''float4 main()''
   \<and> file_text
       (fs (snd (generate_header ''shaders/blit.metal'' ''build/new.h''
                   (shader_world ''float4 main()''))))
       ''build/new.h'' =
     Some (comment_block ''shaders/blit.metal'' @ ([dquote] @ ''float4 main()'' @ [dquote])
             @ [newline])"
proof -
  have p: "\<not> list_ex special ''float4 main()''"
    by (simp add: special_def)
  show ?thesis
    using plain_text_payload
      [OF read_shader_world(1) [of "''float4 main()''"]
          openable_shader_world(2) [of "''float4 main()''"] p] p
    by simp
qed

text \<open>
  Claim C8. When the input ends with a newline, the header ends with a line splice and
  an empty literal: after the escaped text come backslash, \<open>n\<close> and the closing quote,
  and the last line of the file is two adjacent double quotes.
\<close>

theorem trailing_newline_empty_literal:
  assumes "read_text (fs w) input_file = Inr (s @ [newline])"
    and "openable_for_writing (fs w) output_file"
  shows "file_text (fs (snd (generate_header input_file output_file w))) output_file =
           Some (comment_block input_file @
                 [dquote] @ escape_special_characters s @ [backslash, CHR ''n'', dquote] @
                 [newline] @
                 [dquote, dquote] @
                 [newline])"
  using generate_header_text(2) [OF assms]
  by (simp add: escape_append escape_Cons escape_Nil escaped_char_def)

theorem trailing_newline_empty_literal_witness:
  "file_text
     (fs (snd (generate_header ''shaders/blit.metal'' ''build/blit.h''
                 (shader_world (''x;'' @ [newline])))))
     ''build/blit.h'' =
   Some (comment_block ''shaders/blit.metal'' @
         [dquote] @ ''x;'' @ [backslash, CHR ''n'', dquote] @
         [newline] @
         [dquote, dquote] @
         [newline])"
proof -
  have e: "escape_special_characters ''x;'' = ''x;''"
    by (simp add: escape_special_characters_def)
  show ?thesis
    using trailing_newline_empty_literal
      [OF read_shader_world(1) [of "''x;'' @ [newline]"]
          openable_shader_world(1) [of "''x;'' @ [newline]"]]
    by (simp add: e)
qed

text \<open>
  Claim C10. For an empty input \<open>generate_header\<close> does not fail, and the header is the
  two comment lines, a blank line and an empty literal (two adjacent double quotes)
  followed by a newline.
\<close>

theorem empty_input_empty_literal:
  assumes "read_text (fs w) input_file = Inr []"
    and "openable_for_writing (fs w) output_file"
  shows "fst (generate_header input_file output_file w) = Inr ()
       \<and> file_text (fs (snd (generate_header input_file output_file w))) output_file =
           Some (''// Auto-generated from '' @ basename input_file @ [newline] @
                 ''// Do not edit manually'' @ [newline] @
                 [newline] @
                 [dquote, dquote] @
                 [newline])"
  using generate_header_text(1,2) [OF assms]
  by (simp add: comment_block_def escape_Nil)

theorem empty_input_empty_literal_witness:
  "fst (generate_header ''shaders/blit.metal'' ''build/blit.h'' (shader_world [])) = Inr ()
   \<and> file_text
       (fs (snd (generate_header ''shaders/blit.metal'' ''build/blit.h'' (shader_world []))))
       ''build/blit.h'' =
     Some (''// Auto-generated from blit.metal'' @ [newline] @
           ''// Do not edit manually'' @ [newline] @
           [newline] @
           [dquote, dquote] @
           [newline])"
proof -
  have b: "basename ''shaders/blit.metal'' = ''blit.metal''"
    by (simp add: basename_def)
  show ?thesis
    using empty_input_empty_literal
      [OF read_shader_world(1) [of "[]"] openable_shader_world(1) [of "[]"]]
    by (simp add: b)
qed

section \<open>Failures\<close>

text \<open>
  Claim C6. When \<open>input_file\<close> does not name an existing readable file, the read
  raises an \<^verbatim>\<open>IOError\<close> (file not found for a missing file, permission denied for
  an unreadable one), the program ends with it uncaught and a non-zero status after
  this single attempt, and the world is left as it was: the output file is neither
  created nor modified, whether or not it could have been opened.
\<close>

theorem unreadable_input_fails_before_output:
  assumes "\<not> readable_file (fs w) input_file"
  shows "\<exists>e. read_text (fs w) input_file = Inl e
           \<and> e = (case nodes (fs w) input_file of
                    None \<Rightarrow> FileNotFoundError
                  | Some Directory \<Rightarrow> IsADirectoryError
                  | Some (Regular f) \<Rightarrow> PermissionError)
           \<and> generate_header input_file output_file w = (Inl e, w)
           \<and> main [program, input_file, output_file] w = (Uncaught e, w)
           \<and> exit_status (fst (main [program, input_file, output_file] w)) \<noteq> 0
           \<and> nodes (fs (snd (main [program, input_file, output_file] w))) output_file =
               nodes (fs w) output_file"
  using read_text_failure [OF assms]
  by (simp add: main_def generate_header_read_fails)

theorem unreadable_input_fails_before_output_witness:
  "\<not> readable_file (fs (shader_world ''x'')) ''missing.metal''
   \<and> main [''generate_shader_header.py'', ''missing.metal'', ''build/new.h'']
        (shader_world ''x'') = (Uncaught FileNotFoundError, shader_world ''x'')
   \<and> nodes (fs (shader_world ''x'')) ''build/new.h'' = None"
proof -
  have n: "\<not> readable_file (fs (shader_world ''x'')) ''missing.metal''"
    by (simp add: shader_world_def readable_file_def)
  have o: "nodes (fs (shader_world ''x'')) ''build/new.h'' = None"
    by (simp add: shader_world_def)
  show ?thesis
    using unreadable_input_fails_before_output
      [OF n, of "''build/new.h''" "''generate_shader_header.py''"] n o
      read_shader_world(4) [of "''x''"]
    by auto
qed

text \<open>The same for a file that exists and may not be read.\<close>

lemma permission_denied_example:
  "main [''generate_shader_header.py'', ''secret.metal'', ''build/blit.h'']
        (shader_world ''x'') = (Uncaught PermissionError, shader_world ''x'')"
  by (simp add: main_def generate_header_read_fails read_shader_world)

text \<open>
  Claim C7. Invoked with an argument vector of any length other than three (the program
  name and two arguments), the program prints the usage message to standard output, exits
  with code 1 and leaves the file system as it was.
\<close>

theorem wrong_argument_count_usage:
  assumes "length argv \<noteq> 3"
  shows "main argv w = (SysExit 1, w\<lparr>stdout := stdout w @ usage @ [newline]\<rparr>)
       \<and> exit_status (fst (main argv w)) = 1
       \<and> fs (snd (main argv w)) = fs w"
  using assms by (simp add: main_def print_line_def)

theorem wrong_argument_count_usage_witness:
  "length [''generate_shader_header.py'', ''shaders/blit.metal''] \<noteq> 3
   \<and> main [''generate_shader_header.py'', ''shaders/blit.metal''] (shader_world ''x'') =
       (SysExit 1,
        (shader_world ''x'')
          \<lparr>stdout := ''Usage: generate_shader_header.py <input.metal> <output.h>'' @ [newline]\<rparr>)"
proof -
  have s: "stdout (shader_world ''x'') = []"
    by (simp add: shader_world_def)
  show ?thesis
    using wrong_argument_count_usage
      [of "[''generate_shader_header.py'', ''shaders/blit.metal'']" "shader_world ''x''"] s
    by (simp add: usage_def)
qed

section \<open>Determinism\<close>




end
